theory Spec2Isabelle
  imports Main
begin

section \<open>JavaScript values used by the explorer\<close>

text \<open>
  A plain JavaScript object with string keys is an association list in insertion order:
  assigning to a key that exists replaces its value in place, assigning to a new key
  appends it. The keys used by the explorer (full paths starting with a slash, lower-cased
  HTTP methods, class names) are never integer-like and are not member names of
  \<^verbatim>\<open>Object.prototype\<close>, so insertion order is the enumeration order and a lookup
  finds own properties only.
\<close>

type_synonym 'v obj = "(string \<times> 'v) list"

definition obj_get :: "'v obj \<Rightarrow> string \<Rightarrow> 'v option" where
  "obj_get ob k = map_of ob k"

fun obj_set :: "'v obj \<Rightarrow> string \<Rightarrow> 'v \<Rightarrow> 'v obj" where
  "obj_set [] k v = [(k, v)]"
| "obj_set ((k', v') # rest) k v =
     (if k' = k then (k', v) # rest else (k', v') # obj_set rest k v)"

definition obj_keys :: "'v obj \<Rightarrow> string list" where
  "obj_keys ob = map fst ob"

subsection \<open>Strings\<close>

definition is_slash :: "char \<Rightarrow> bool" where
  "is_slash c = (c = CHR ''/'')"

text \<open>\<^verbatim>\<open>s.replace(/^\/+/, "")\<close>: drop every leading slash.\<close>

definition strip_leading_slashes :: "string \<Rightarrow> string" where
  "strip_leading_slashes s = dropWhile is_slash s"

text \<open>\<^verbatim>\<open>s.replace(/\/+$/, "")\<close>: drop every trailing slash.\<close>

definition strip_trailing_slashes :: "string \<Rightarrow> string" where
  "strip_trailing_slashes s = rev (dropWhile is_slash (rev s))"

text \<open>\<^verbatim>\<open>s.split("/")\<close>: the segments between slashes; never the empty list.\<close>

fun split_slash :: "string \<Rightarrow> string list" where
  "split_slash [] = [[]]"
| "split_slash (c # cs) =
     (if is_slash c then [] # split_slash cs
      else (case split_slash cs of
              [] \<Rightarrow> [[c]]
            | w # ws \<Rightarrow> (c # w) # ws))"

text \<open>\<^verbatim>\<open>s.toLowerCase()\<close> on the ASCII letters of an HTTP method name.\<close>

definition lower_char :: "char \<Rightarrow> char" where
  "lower_char c =
     (let n = (of_char c :: nat)
      in if 65 \<le> n \<and> n \<le> 90 then char_of (n + 32) else c)"

definition toLowerCase :: "string \<Rightarrow> string" where
  "toLowerCase s = map lower_char s"

section \<open>Path handling of \<^verbatim>\<open>SwaggerExplorer\<close>\<close>

text \<open>\<^verbatim>\<open>normalizePath\<close>: \<^verbatim>\<open>"/" + path.replace(/^\/+/, "").replace(/\/+$/, "")\<close>.\<close>

definition normalizePath :: "string \<Rightarrow> string" where
  "normalizePath path =
     CHR ''/'' # strip_trailing_slashes (strip_leading_slashes path)"

text \<open>
  The \<^verbatim>\<open>methodPath\<close> of \<^verbatim>\<open>exploreController\<close>: empty for an empty route path,
  otherwise a slash followed by the route path without its leading slashes.
\<close>

definition methodPath :: "string \<Rightarrow> string" where
  "methodPath routePath =
     (if routePath = [] then [] else CHR ''/'' # strip_leading_slashes routePath)"

definition fullPath :: "string \<Rightarrow> string \<Rightarrow> string" where
  "fullPath basePath routePath = normalizePath (basePath @ methodPath routePath)"

text \<open>The five path fragments of the normalization property.\<close>

definition sample_paths :: "string list" where
  "sample_paths = ['''', ''/'', ''a'', ''/a/'', ''a/b'']"

text \<open>A path starts with exactly one slash: its first character is a slash, its second is not.\<close>

definition one_leading_slash :: "string \<Rightarrow> bool" where
  "one_leading_slash p =
     (case p of
        [] \<Rightarrow> False
      | c # cs \<Rightarrow> is_slash c \<and> (case cs of [] \<Rightarrow> True | d # _ \<Rightarrow> \<not> is_slash d))"

definition no_trailing_slash :: "string \<Rightarrow> bool" where
  "no_trailing_slash p = (p = ''/'' \<or> (p \<noteq> [] \<and> \<not> is_slash (last p)))"

section \<open>Metadata records\<close>

text \<open>
  A property schema as \<^verbatim>\<open>ApiProperty\<close> stores it: a reference (\<^verbatim>\<open>$ref\<close>), a type, and
  for arrays the schema of the items. Every field is optional, as in the source's
  \<^verbatim>\<open>Partial<SchemaObject>\<close>.
\<close>

datatype schema_prop =
  SchemaProp (sp_ref: "string option") (sp_type: "string option")
    (sp_format: "string option") (sp_description: "string option")
    (sp_items: "schema_prop option")

record parameter =
  p_name :: "string option"
  p_in :: "string option"
  p_required :: "bool option"
  p_description :: "string option"
  p_schema :: "schema_prop option"

record response =
  r_description :: "string option"
  r_content :: "schema_prop obj option"

record request_body =
  rb_description :: "string option"
  rb_required :: "bool option"
  rb_content :: "schema_prop obj option"

text \<open>A security requirement object maps a scheme name to its scope list.\<close>

type_synonym security_requirement = "string list obj"

record security_scheme =
  ss_type :: string
  ss_scheme :: "string option"
  ss_bearerFormat :: "string option"
  ss_description :: "string option"
  ss_flows :: "string obj obj option"

record components =
  securitySchemes :: "security_scheme obj option"

text \<open>
  The argument of \<^verbatim>\<open>ApiOperation\<close>, a \<^verbatim>\<open>Partial<OperationObject>\<close>. The fields
  \<^verbatim>\<open>externalDocs\<close>, \<^verbatim>\<open>callbacks\<close> and \<^verbatim>\<open>servers\<close> are copied through unchanged by the
  explorer and are left out.
\<close>

record operation_metadata =
  om_tags :: "string list option"
  om_summary :: "string option"
  om_description :: "string option"
  om_operationId :: "string option"
  om_deprecated :: "bool option"
  om_security :: "security_requirement list option"
  om_parameters :: "parameter list option"
  om_requestBody :: "request_body option"
  om_responses :: "response obj option"

text \<open>
  The object stored under the \<^verbatim>\<open>SWAGGER_METADATA\<close> key. The source types it as
  \<^verbatim>\<open>any\<close>; these are the keys the decorators write and the explorer reads, each absent
  (\<open>None\<close>) or present.
\<close>

record swagger_metadata =
  md_tags :: "string list option"
  md_operation :: "operation_metadata option"
  md_parameters :: "parameter list option"
  md_requestBody :: "request_body option"
  md_responses :: "response obj option"
  md_security :: "security_requirement list option"
  md_components :: "components option"
  md_type :: "string option"
  md_title :: "string option"
  md_description :: "string option"
  md_properties :: "schema_prop obj option"

text \<open>The empty object \<^verbatim>\<open>{}\<close> that \<^verbatim>\<open>Reflect.getMetadata(...) || {}\<close> falls back to.\<close>

definition empty_metadata :: swagger_metadata where
  "empty_metadata =
     \<lparr>md_tags = None, md_operation = None, md_parameters = None, md_requestBody = None,
      md_responses = None, md_security = None, md_components = None, md_type = None,
      md_title = None, md_description = None, md_properties = None\<rparr>"

definition empty_operation_metadata :: operation_metadata where
  "empty_operation_metadata =
     \<lparr>om_tags = None, om_summary = None, om_description = None, om_operationId = None,
      om_deprecated = None, om_security = None, om_parameters = None,
      om_requestBody = None, om_responses = None\<rparr>"

text \<open>The operation object the explorer emits for one endpoint.\<close>

record operation =
  op_tags :: "string list"
  op_summary :: "string option"
  op_description :: "string option"
  op_operationId :: "string option"
  op_deprecated :: "bool option"
  op_security :: "security_requirement list option"
  op_parameters :: "parameter list"
  op_requestBody :: "request_body option"
  op_responses :: "response obj"

section \<open>The metadata store\<close>

text \<open>
  \<^verbatim>\<open>Reflect.defineMetadata(key, value, target, propertyKey?)\<close> and
  \<^verbatim>\<open>Reflect.getMetadata\<close>. A target is a class constructor or its prototype; a class is
  identified by its name. The store below holds the \<^verbatim>\<open>SWAGGER_METADATA\<close> key.
\<close>

datatype target = Constructor string | Prototype string

type_synonym store = "target \<times> string option \<Rightarrow> swagger_metadata option"

definition getMetadata :: "store \<Rightarrow> target \<Rightarrow> string option \<Rightarrow> swagger_metadata option" where
  "getMetadata st tgt propertyKey = st (tgt, propertyKey)"

definition defineMetadata ::
  "swagger_metadata \<Rightarrow> target \<Rightarrow> string option \<Rightarrow> store \<Rightarrow> store" where
  "defineMetadata md tgt propertyKey st = st((tgt, propertyKey) := Some md)"

text \<open>\<^verbatim>\<open>Reflect.getMetadata(SWAGGER_METADATA, target, propertyKey) || {}\<close>.\<close>

definition getMetadataOrEmpty :: "store \<Rightarrow> target \<Rightarrow> string option \<Rightarrow> swagger_metadata" where
  "getMetadataOrEmpty st tgt propertyKey =
     (case getMetadata st tgt propertyKey of None \<Rightarrow> empty_metadata | Some md \<Rightarrow> md)"

definition empty_store :: store where
  "empty_store = (\<lambda>_. None)"

text \<open>
  Metadata written by the host framework, which the explorer only reads: the module
  record (\<^verbatim>\<open>"module"\<close> key), the controller's base path
  (\<^verbatim>\<open>CONTROLLER_METADATA_KEY\<close>), the route of a method (\<^verbatim>\<open>ROUTE_METADATA_KEY\<close>), the
  own property names of a prototype with whether each is a function, and the global
  model registry \<^verbatim>\<open>global.__swagger_schemas\<close>, a \<^verbatim>\<open>Map\<close> from class name to class in
  insertion order (absent until a decorator creates it).
\<close>

record route_metadata =
  rt_path :: string
  rt_method :: string

record module_metadata =
  controllers :: "string list option"

record reflect =
  swagger_store :: store
  module_store :: "string \<Rightarrow> module_metadata option"
  controller_store :: "string \<Rightarrow> string option"
  route_store :: "string \<Rightarrow> string \<Rightarrow> route_metadata option"
  own_property_names :: "string \<Rightarrow> (string \<times> bool) list"
  schema_registry :: "(string \<times> target) list option"

section \<open>The explorer\<close>

record explorer =
  paths :: "operation obj obj"
  schemas :: "swagger_metadata obj"

subsection \<open>Path parameters\<close>

text \<open>
  \<^verbatim>\<open>extractPathParameters\<close> runs the global regular expression \<^verbatim>\<open>/:([^/]+)/g\<close> over the
  path: at a colon followed by at least one character other than a slash, the maximal run
  of such characters is the captured name and the scan resumes after it; otherwise the
  scan moves one character on.
\<close>

definition not_slash :: "char \<Rightarrow> bool" where
  "not_slash c = (\<not> is_slash c)"

function path_variables :: "string \<Rightarrow> string list" where
  "path_variables [] = []"
| "path_variables (c # cs) =
     (if c = CHR '':'' \<and> takeWhile not_slash cs \<noteq> []
      then takeWhile not_slash cs # path_variables (dropWhile not_slash cs)
      else path_variables cs)"
  by pat_completeness auto
termination
  by (relation "measure length") (auto simp: length_dropWhile_le le_imp_less_Suc)

definition derived_parameter :: "string \<Rightarrow> parameter" where
  "derived_parameter name =
     \<lparr>p_name = Some name, p_in = Some ''path'', p_required = Some True,
      p_description = None,
      p_schema = Some (SchemaProp None (Some ''string'') None None None)\<rparr>"

definition extractPathParameters :: "string \<Rightarrow> parameter list" where
  "extractPathParameters path = map derived_parameter (path_variables path)"

subsection \<open>Operations\<close>

text \<open>\<^verbatim>\<open>getControllerTags\<close>: the tags of the controller class, or the empty list.\<close>

definition getControllerTags :: "reflect \<Rightarrow> string \<Rightarrow> string list" where
  "getControllerTags env controller =
     (case md_tags (getMetadataOrEmpty (swagger_store env) (Constructor controller) None) of
        None \<Rightarrow> []
      | Some ts \<Rightarrow> ts)"

definition default_responses :: "response obj" where
  "default_responses =
     [(''200'', \<lparr>r_description = Some ''Success'', r_content = None\<rparr>)]"

text \<open>
  The object literal of \<^verbatim>\<open>exploreController\<close> (lines 244 to 257). Its keys are written
  in this order: \<^verbatim>\<open>tags\<close>, then the spread of \<^verbatim>\<open>swaggerMetadata.operation\<close>, then
  \<^verbatim>\<open>parameters\<close>, \<^verbatim>\<open>requestBody\<close> and \<^verbatim>\<open>responses\<close>. A later key replaces an earlier
  one, so the operation metadata overrides the computed tags and is itself overridden in
  its parameters, request body and responses.
\<close>

definition build_operation :: "string list \<Rightarrow> swagger_metadata \<Rightarrow> string \<Rightarrow> operation" where
  "build_operation controllerTags swaggerMetadata full =
     (let om = (case md_operation swaggerMetadata of
                  None \<Rightarrow> empty_operation_metadata
                | Some m \<Rightarrow> m)
      in \<lparr>op_tags =
             (case om_tags om of
                Some ts \<Rightarrow> ts
              | None \<Rightarrow>
                  controllerTags @
                  (case md_tags swaggerMetadata of None \<Rightarrow> [] | Some ts \<Rightarrow> ts)),
           op_summary = om_summary om,
           op_description = om_description om,
           op_operationId = om_operationId om,
           op_deprecated = om_deprecated om,
           op_security = om_security om,
           op_parameters =
             extractPathParameters full @
             (case md_parameters swaggerMetadata of None \<Rightarrow> [] | Some ps \<Rightarrow> ps),
           op_requestBody = md_requestBody swaggerMetadata,
           op_responses =
             (case md_responses swaggerMetadata of
                None \<Rightarrow> default_responses
              | Some rs \<Rightarrow> rs)\<rparr>)"

text \<open>
  One iteration of the method loop of \<^verbatim>\<open>exploreController\<close>: a method without route
  metadata is skipped; otherwise the path item is created if absent and the operation is
  stored under the lower-cased HTTP method.
\<close>

definition explore_method ::
  "reflect \<Rightarrow> string \<Rightarrow> string \<Rightarrow> string list \<Rightarrow> string \<Rightarrow> operation obj obj \<Rightarrow> operation obj obj"
  where
  "explore_method env controller basePath controllerTags meth ps =
     (case route_store env controller meth of
        None \<Rightarrow> ps
      | Some routeMetadata \<Rightarrow>
          (let swaggerMetadata =
                 getMetadataOrEmpty (swagger_store env) (Prototype controller) (Some meth);
               full = fullPath basePath (rt_path routeMetadata);
               ps1 = (case obj_get ps full of None \<Rightarrow> obj_set ps full [] | Some _ \<Rightarrow> ps);
               methodKey = toLowerCase (rt_method routeMetadata);
               operation = build_operation controllerTags swaggerMetadata full;
               item = (case obj_get ps1 full of None \<Rightarrow> [] | Some it \<Rightarrow> it)
           in obj_set ps1 full (obj_set item methodKey operation)))"

definition exploreController :: "reflect \<Rightarrow> string \<Rightarrow> operation obj obj \<Rightarrow> operation obj obj" where
  "exploreController env controller ps =
     (let basePath = (case controller_store env controller of None \<Rightarrow> [] | Some b \<Rightarrow> b);
          controllerTags = getControllerTags env controller;
          methods = map fst (filter (\<lambda>(prop, is_function). prop \<noteq> ''constructor'' \<and> is_function)
                               (own_property_names env controller))
      in fold (explore_method env controller basePath controllerTags) methods ps)"

subsection \<open>Schema resolution\<close>

text \<open>The last segment of a reference: \<^verbatim>\<open>ref.$ref.split("/").pop()\<close>.\<close>

definition ref_name :: "string \<Rightarrow> string" where
  "ref_name r = last (split_slash r)"

text \<open>
  The schema literal \<^verbatim>\<open>{ type: "object", ...metadata, properties: transformed }\<close>: a
  \<^verbatim>\<open>type\<close> in the metadata replaces \<^verbatim>\<open>"object"\<close>, the transformed properties replace
  the metadata's.
\<close>

definition materialize :: "swagger_metadata \<Rightarrow> schema_prop obj \<Rightarrow> swagger_metadata" where
  "materialize metadata transformed =
     metadata\<lparr>md_type := Some (case md_type metadata of None \<Rightarrow> ''object'' | Some t \<Rightarrow> t),
              md_properties := Some transformed\<rparr>"

text \<open>\<^verbatim>\<open>{ ...prop, items: it }\<close>.\<close>

definition with_items :: "schema_prop \<Rightarrow> schema_prop \<Rightarrow> schema_prop" where
  "with_items prop it =
     SchemaProp (sp_ref prop) (sp_type prop) (sp_format prop) (sp_description prop) (Some it)"

text \<open>
  \<^verbatim>\<open>resolveReference\<close> and the loop of \<^verbatim>\<open>transformProperties\<close> call each other. Nothing
  in the source bounds the nesting, so the model carries the depth still available on the
  call stack: \<open>None\<close> is the stack overflow of a recursion that does not come back. The
  depth is spent only where \<^verbatim>\<open>resolveReference\<close> enters \<^verbatim>\<open>transformProperties\<close>.

  In \<^verbatim>\<open>resolveReference\<close> the assignment \<^verbatim>\<open>this.schemas[refName] = {...}\<close> evaluates its
  right-hand side, with the nested \<^verbatim>\<open>transformProperties\<close> call, before it stores the
  schema: the store is applied to the schema map that the nested call returns.
\<close>

fun resolveReference ::
    "nat \<Rightarrow> reflect \<Rightarrow> schema_prop \<Rightarrow> swagger_metadata obj \<Rightarrow> swagger_metadata obj option"
  and transformProperties_loop ::
    "nat \<Rightarrow> reflect \<Rightarrow> schema_prop obj \<Rightarrow> schema_prop obj \<Rightarrow> swagger_metadata obj
      \<Rightarrow> (schema_prop obj \<times> swagger_metadata obj) option"
  where
  "resolveReference n env ref sch =
     (case sp_ref ref of
        None \<Rightarrow> Some sch
      | Some r \<Rightarrow>
          if r = [] then Some sch
          else (case obj_get sch (ref_name r) of
                  Some _ \<Rightarrow> Some sch
                | None \<Rightarrow>
                    (case schema_registry env of
                       None \<Rightarrow> Some sch
                     | Some reg \<Rightarrow>
                         (case map_of reg (ref_name r) of
                            None \<Rightarrow> Some sch
                          | Some tgt \<Rightarrow>
                              (case n of
                                 0 \<Rightarrow> None
                               | Suc m \<Rightarrow>
                                   (case transformProperties_loop m env
                                           (case md_properties
                                                   (getMetadataOrEmpty (swagger_store env) tgt None) of
                                              None \<Rightarrow> []
                                            | Some props \<Rightarrow> props)
                                           [] sch of
                                      None \<Rightarrow> None
                                    | Some (transformed, sch') \<Rightarrow>
                                        Some (obj_set sch' (ref_name r)
                                                (materialize
                                                   (getMetadataOrEmpty (swagger_store env) tgt None)
                                                   transformed))))))))"
| "transformProperties_loop n env [] transformed sch = Some (transformed, sch)"
| "transformProperties_loop n env ((key, prop) # rest) transformed sch =
     (case sp_items prop of
        None \<Rightarrow> transformProperties_loop n env rest (obj_set transformed key prop) sch
      | Some it \<Rightarrow>
          (case resolveReference n env it sch of
             None \<Rightarrow> None
           | Some sch' \<Rightarrow>
               transformProperties_loop n env rest
                 (obj_set transformed key (with_items prop it)) sch'))"

definition transformProperties ::
  "nat \<Rightarrow> reflect \<Rightarrow> schema_prop obj \<Rightarrow> swagger_metadata obj
    \<Rightarrow> (schema_prop obj \<times> swagger_metadata obj) option" where
  "transformProperties n env properties sch = transformProperties_loop n env properties [] sch"

text \<open>
  \<^verbatim>\<open>collectGlobalSchemas\<close>: every registry entry whose metadata has a \<^verbatim>\<open>properties\<close>
  object (any object is truthy, the empty one too) is stored as a schema.
\<close>

fun collect_entries ::
  "nat \<Rightarrow> reflect \<Rightarrow> (string \<times> target) list \<Rightarrow> swagger_metadata obj \<Rightarrow> swagger_metadata obj option"
  where
  "collect_entries n env [] sch = Some sch"
| "collect_entries n env ((name, tgt) # rest) sch =
     (case md_properties (getMetadataOrEmpty (swagger_store env) tgt None) of
        None \<Rightarrow> collect_entries n env rest sch
      | Some props \<Rightarrow>
          (case transformProperties n env props sch of
             None \<Rightarrow> None
           | Some (transformed, sch') \<Rightarrow>
               collect_entries n env rest
                 (obj_set sch' name
                    (materialize (getMetadataOrEmpty (swagger_store env) tgt None) transformed))))"

definition collectGlobalSchemas ::
  "nat \<Rightarrow> reflect \<Rightarrow> swagger_metadata obj \<Rightarrow> swagger_metadata obj option" where
  "collectGlobalSchemas n env sch =
     (case schema_registry env of
        None \<Rightarrow> Some sch
      | Some reg \<Rightarrow> collect_entries n env reg sch)"

subsection \<open>explore\<close>

text \<open>The value \<^verbatim>\<open>{ paths, components: { schemas } }\<close> that \<^verbatim>\<open>explore\<close> returns.\<close>

record explored =
  ex_paths :: "operation obj obj"
  ex_schemas :: "swagger_metadata obj"

definition explore_module :: "reflect \<Rightarrow> string \<Rightarrow> operation obj obj \<Rightarrow> operation obj obj" where
  "explore_module env modul ps =
     (case module_store env modul of
        None \<Rightarrow> ps
      | Some metadata \<Rightarrow>
          (case controllers metadata of
             None \<Rightarrow> ps
           | Some cs \<Rightarrow> fold (exploreController env) cs ps))"

text \<open>
  \<^verbatim>\<open>explore\<close> takes the explorer object as it is before the call and returns the result
  together with the explorer object after the call.
\<close>

definition explore ::
  "nat \<Rightarrow> reflect \<Rightarrow> string list \<Rightarrow> explorer \<Rightarrow> (explored \<times> explorer) option" where
  "explore n env modules this =
     (let this0 = this\<lparr>paths := [], schemas := []\<rparr>
      in case collectGlobalSchemas n env (schemas this0) of
           None \<Rightarrow> None
         | Some sch \<Rightarrow>
             (let this1 = this0\<lparr>schemas := sch\<rparr>;
                  this2 = this1\<lparr>paths := fold (explore_module env) modules (paths this1)\<rparr>
              in Some (\<lparr>ex_paths = paths this2, ex_schemas = schemas this2\<rparr>, this2)))"

section \<open>Decorators\<close>

text \<open>
  A decorator is applied to a target, a property key (absent for a class decorator) and,
  for a method decorator, a property descriptor; it rewrites the metadata store.
\<close>

definition ApiOperation :: "operation_metadata \<Rightarrow> target \<Rightarrow> string \<Rightarrow> store \<Rightarrow> store" where
  "ApiOperation metadata tgt propertyKey st =
     (let existingMetadata = getMetadataOrEmpty st tgt (Some propertyKey)
      in defineMetadata (existingMetadata\<lparr>md_operation := Some metadata\<rparr>)
           tgt (Some propertyKey) st)"

definition ApiTags :: "string list \<Rightarrow> target \<Rightarrow> string option \<Rightarrow> bool \<Rightarrow> store \<Rightarrow> store" where
  "ApiTags tags tgt propertyKey descriptor st =
     (if descriptor
      then (let existingMetadata = getMetadataOrEmpty st tgt propertyKey
            in defineMetadata (existingMetadata\<lparr>md_tags := Some tags\<rparr>) tgt propertyKey st)
      else (let existingMetadata = getMetadataOrEmpty st tgt None
            in defineMetadata (existingMetadata\<lparr>md_tags := Some tags\<rparr>) tgt None st))"

definition ApiParam :: "parameter \<Rightarrow> target \<Rightarrow> string \<Rightarrow> store \<Rightarrow> store" where
  "ApiParam param tgt propertyKey st =
     (let existingMetadata = getMetadataOrEmpty st tgt (Some propertyKey);
          parameters = (case md_parameters existingMetadata of None \<Rightarrow> [] | Some ps \<Rightarrow> ps)
                       @ [param\<lparr>p_in := Some ''path''\<rparr>]
      in defineMetadata (existingMetadata\<lparr>md_parameters := Some parameters\<rparr>)
           tgt (Some propertyKey) st)"







subsection \<open>Model decorators\<close>

text \<open>\<^verbatim>\<open>globalScope.__swagger_schemas.set(name, target)\<close>, creating the map when absent.\<close>

definition registry_set :: "string \<Rightarrow> target \<Rightarrow> reflect \<Rightarrow> reflect" where
  "registry_set name tgt env =
     env\<lparr>schema_registry :=
           Some (obj_set (case schema_registry env of None \<Rightarrow> [] | Some reg \<Rightarrow> reg) name tgt)\<rparr>"

text \<open>
  \<^verbatim>\<open>ApiModel\<close> keeps the properties already recorded on the class (or the empty object),
  stores the model metadata on the constructor and on the prototype, and registers the
  class under its name.
\<close>

definition ApiModel :: "swagger_metadata \<Rightarrow> string \<Rightarrow> reflect \<Rightarrow> reflect" where
  "ApiModel metadata cls env =
     (let existingMetadata = getMetadataOrEmpty (swagger_store env) (Constructor cls) None;
          properties = (case md_properties existingMetadata of None \<Rightarrow> [] | Some ps \<Rightarrow> ps);
          updatedMetadata = metadata\<lparr>md_type := Some ''object'', md_properties := Some properties\<rparr>;
          st = defineMetadata updatedMetadata (Prototype cls) None
                 (defineMetadata updatedMetadata (Constructor cls) None (swagger_store env))
      in registry_set cls (Constructor cls) (env\<lparr>swagger_store := st\<rparr>))"

text \<open>The \<^verbatim>\<open>design:type\<close> that TypeScript records for a decorated property.\<close>

datatype design_type =
  TNone | TString | TNumber | TBoolean | TDate | TArray | TClass string

text \<open>\<^verbatim>\<open>{ ...a, ...b }\<close> on two schema objects: a key of \<open>b\<close> replaces that of \<open>a\<close>.\<close>

definition or_else :: "'a option \<Rightarrow> 'a option \<Rightarrow> 'a option" where
  "or_else b a = (case b of None \<Rightarrow> a | Some v \<Rightarrow> Some v)"

definition spread_schema :: "schema_prop \<Rightarrow> schema_prop \<Rightarrow> schema_prop" where
  "spread_schema a b =
     SchemaProp (or_else (sp_ref b) (sp_ref a)) (or_else (sp_type b) (sp_type a))
       (or_else (sp_format b) (sp_format a)) (or_else (sp_description b) (sp_description a))
       (or_else (sp_items b) (sp_items a))"

definition empty_schema :: schema_prop where
  "empty_schema = SchemaProp None None None None None"

text \<open>
  \<^verbatim>\<open>getSchemaForType\<close>: the schema of a property type; a class type is registered under
  its name unless the name is already registered, and becomes a reference.
\<close>

definition getSchemaForType :: "design_type \<Rightarrow> reflect \<Rightarrow> schema_prop \<times> reflect" where
  "getSchemaForType ty env =
     (case ty of
        TNone \<Rightarrow> (empty_schema, env)
      | TString \<Rightarrow> (SchemaProp None (Some ''string'') None None None, env)
      | TNumber \<Rightarrow> (SchemaProp None (Some ''number'') None None None, env)
      | TBoolean \<Rightarrow> (SchemaProp None (Some ''boolean'') None None None, env)
      | TDate \<Rightarrow> (SchemaProp None (Some ''string'') (Some ''date-time'') None None, env)
      | TArray \<Rightarrow> (SchemaProp None (Some ''array'') None None (Some empty_schema), env)
      | TClass typeName \<Rightarrow>
          (SchemaProp (Some (''#/components/schemas/'' @ typeName)) None None None None,
           (let reg = (case schema_registry env of None \<Rightarrow> [] | Some r \<Rightarrow> r)
            in if map_of reg typeName = None
               then registry_set typeName (Constructor typeName) env
               else env\<lparr>schema_registry := Some reg\<rparr>)))"

definition ApiProperty :: "schema_prop \<Rightarrow> string \<Rightarrow> string \<Rightarrow> design_type \<Rightarrow> reflect \<Rightarrow> reflect" where
  "ApiProperty metadata cls propertyKey propertyType env =
     (let existingMetadata = getMetadataOrEmpty (swagger_store env) (Constructor cls) None;
          properties = (case md_properties existingMetadata of None \<Rightarrow> [] | Some ps \<Rightarrow> ps);
          (schema, env1) =
            (if propertyType = TArray
             then (spread_schema
                     (SchemaProp None (Some ''array'') None None
                        (Some (spread_schema (SchemaProp None (Some ''string'') None None None)
                                 (case sp_items metadata of None \<Rightarrow> empty_schema | Some it \<Rightarrow> it))))
                     metadata,
                   env)
             else (let (s, e) = getSchemaForType propertyType env
                   in (spread_schema s metadata, e)));
          updatedMetadata =
            existingMetadata\<lparr>md_type := Some ''object'',
                             md_properties := Some (obj_set properties propertyKey schema)\<rparr>;
          st = defineMetadata updatedMetadata (Prototype cls) None
                 (defineMetadata updatedMetadata (Constructor cls) None (swagger_store env1))
      in env1\<lparr>swagger_store := st\<rparr>)"

text \<open>The environment before any declaration has run.\<close>

definition empty_reflect :: reflect where
  "empty_reflect =
     \<lparr>swagger_store = empty_store, module_store = (\<lambda>_. None), controller_store = (\<lambda>_. None),
      route_store = (\<lambda>_ _. None), own_property_names = (\<lambda>_. []), schema_registry = None\<rparr>"

section \<open>Reading the explorer's output\<close>


definition new_explorer :: explorer where
  "new_explorer = \<lparr>paths = [], schemas = []\<rparr>"

section \<open>The documentation service\<close>

record info =
  info_title :: "string option"
  info_version :: "string option"

record document_components =
  dc_schemas :: "swagger_metadata obj option"
  dc_securitySchemes :: "security_scheme obj option"

record document =
  doc_openapi :: "string option"
  doc_info :: "info option"
  doc_paths :: "operation obj obj option"
  doc_components :: "document_components option"

record swagger_config =
  cfg_path :: "string option"
  cfg_document :: document

datatype swagger_error =
  InvalidDocumentStructure | NotConfigured | PathRequired | CallStackExceeded

text \<open>
  The service object: the configuration and the document once they have been set, and
  what \<^verbatim>\<open>getPaths()\<close> and \<^verbatim>\<open>getComponents()\<close> return.
\<close>

record swagger_service =
  svc_config :: "swagger_config option"
  svc_document :: "document option"
  svc_paths :: "operation obj obj"
  svc_schemas :: "swagger_metadata obj"

text \<open>
  Modelled from the spec: \<^verbatim>\<open>SwaggerService.setDocument\<close> and its structural check
  (\<^verbatim>\<open>src/module/swagger.service.ts\<close>) are missing from the sources; only the test
  \<^verbatim>\<open>should throw error for invalid document\<close> and the caller \<^verbatim>\<open>setupSwagger\<close> are there.
  The check fails when \<^verbatim>\<open>paths\<close>, \<^verbatim>\<open>info.title\<close> or \<^verbatim>\<open>info.version\<close> is absent.
\<close>

definition validate :: "document \<Rightarrow> swagger_error + unit" where
  "validate doc =
     (if doc_paths doc = None
         \<or> (case doc_info doc of None \<Rightarrow> True | Some i \<Rightarrow> info_title i = None)
         \<or> (case doc_info doc of None \<Rightarrow> True | Some i \<Rightarrow> info_version i = None)
      then Inl InvalidDocumentStructure
      else Inr ())"

text \<open>
  Modelled from the spec: \<^verbatim>\<open>setDocument\<close> raises the structural validation error and
  leaves the service as it was, or stores the document. The result is the error raised,
  if any, with the service after the call.
\<close>

definition setDocument :: "document \<Rightarrow> swagger_service \<Rightarrow> swagger_error option \<times> swagger_service" where
  "setDocument doc svc =
     (case validate doc of
        Inl e \<Rightarrow> (Some e, svc)
      | Inr _ \<Rightarrow> (None, svc\<lparr>svc_document := Some doc\<rparr>))"

text \<open>
  Modelled from the spec: \<^verbatim>\<open>getDocument\<close>, the document handed to the two serving
  routes; asking before a document has been set fails.
\<close>

definition getDocument :: "swagger_service \<Rightarrow> swagger_error + document" where
  "getDocument svc =
     (case svc_document svc of None \<Rightarrow> Inl NotConfigured | Some d \<Rightarrow> Inr d)"

text \<open>
  Modelled from the spec: \<^verbatim>\<open>SwaggerService.setConfig\<close> is missing from the sources. The
  spec names the configuration error, and the test \<^verbatim>\<open>should set config\<close> fixes when it
  is raised: a configuration with a path is accepted, one without a path is refused with
  \<^verbatim>\<open>Swagger path configuration is required\<close>. An empty path counts as none, as it does in
  \<^verbatim>\<open>config.path || "docs"\<close> of \<^verbatim>\<open>setupSwagger\<close>.
\<close>

definition setConfig :: "swagger_config \<Rightarrow> swagger_service \<Rightarrow> swagger_error option \<times> swagger_service" where
  "setConfig config svc =
     (case cfg_path config of
        None \<Rightarrow> (Some PathRequired, svc)
      | Some p \<Rightarrow>
          if p = [] then (Some PathRequired, svc)
          else (None, svc\<lparr>svc_config := Some config\<rparr>))"

text \<open>
  Modelled from the spec: \<^verbatim>\<open>SwaggerService.generateDocument\<close> is missing from the
  sources. It has the explorer explore the modules and keeps the paths and schemas for
  \<^verbatim>\<open>getPaths()\<close> and \<^verbatim>\<open>getComponents()\<close>. An exploration that does not come back ends
  in the call-stack error, which the service does not catch.
\<close>

definition generateDocument ::
  "nat \<Rightarrow> reflect \<Rightarrow> string list \<Rightarrow> swagger_service \<Rightarrow> swagger_error option \<times> swagger_service"
  where
  "generateDocument n env modules svc =
     (case explore n env modules new_explorer of
        None \<Rightarrow> (Some CallStackExceeded, svc)
      | Some (out, _) \<Rightarrow>
          (None, svc\<lparr>svc_paths := ex_paths out, svc_schemas := ex_schemas out\<rparr>))"

definition new_service :: swagger_service where
  "new_service =
     \<lparr>svc_config = None, svc_document = None, svc_paths = [], svc_schemas = []\<rparr>"

text \<open>The service after a sequence of \<^verbatim>\<open>setDocument\<close> calls, failed ones included.\<close>

definition after_setDocuments :: "document list \<Rightarrow> swagger_service \<Rightarrow> swagger_service" where
  "after_setDocuments docs svc = fold (\<lambda>d s. snd (setDocument d s)) docs svc"

text \<open>
  The complete document of \<^verbatim>\<open>setupSwagger\<close>: the configured document with the
  service's paths, and with the service's components spread over the configured ones.
\<close>

definition complete_document :: "swagger_config \<Rightarrow> swagger_service \<Rightarrow> document" where
  "complete_document config svc =
     (cfg_document config)
       \<lparr>doc_paths := Some (svc_paths svc),
        doc_components :=
          Some \<lparr>dc_schemas = Some (svc_schemas svc),
                dc_securitySchemes =
                  (case doc_components (cfg_document config) of
                     None \<Rightarrow> None
                   | Some c \<Rightarrow> dc_securitySchemes c)\<rparr>\<rparr>"

text \<open>
  \<^verbatim>\<open>setupSwagger\<close>, in the order of the source: \<^verbatim>\<open>setConfig\<close>, \<^verbatim>\<open>generateDocument\<close>,
  the complete document, \<^verbatim>\<open>setDocument\<close>, and only then the registration of the two
  routes. An error raised by a call ends the set-up. The result is the error raised, or
  the registered routes with the service. The service that the host framework's container
  resolves after registering the swagger module is the argument \<open>svc\<close>.
\<close>

definition setupSwagger ::
  "nat \<Rightarrow> reflect \<Rightarrow> swagger_config \<Rightarrow> string list \<Rightarrow> swagger_service
    \<Rightarrow> swagger_error + (string list \<times> swagger_service)" where
  "setupSwagger n env config modules svc =
     (case setConfig config svc of
        (Some e, _) \<Rightarrow> Inl e
      | (None, svc1) \<Rightarrow>
          (case generateDocument n env modules svc1 of
             (Some e, _) \<Rightarrow> Inl e
           | (None, svc2) \<Rightarrow>
               (case setDocument (complete_document config svc2) svc2 of
                  (Some e, _) \<Rightarrow> Inl e
                | (None, svc3) \<Rightarrow>
                    (let path = (case cfg_path config of
                                   None \<Rightarrow> ''docs''
                                 | Some p \<Rightarrow> if p = [] then ''docs'' else p)
                     in Inr ([path @ ''/swagger.json'', path], svc3)))))"

section \<open>Example declarations\<close>

text \<open>
  A controller \<^verbatim>\<open>OrgController\<close> with base path \<^verbatim>\<open>orgs\<close> and one method
  \<^verbatim>\<open>getUser\<close>, routed as \<^verbatim>\<open>GET :org/users/:id\<close> and decorated with
  \<^verbatim>\<open>@ApiParam({ name: "id" })\<close>.
\<close>

definition id_param :: parameter where
  "id_param =
     \<lparr>p_name = Some ''id'', p_in = None, p_required = None, p_description = None,
      p_schema = None\<rparr>"

definition orgs_env :: reflect where
  "orgs_env =
     empty_reflect
       \<lparr>swagger_store := ApiParam id_param (Prototype ''OrgController'') ''getUser'' empty_store,
        module_store :=
          (\<lambda>m. if m = ''OrgModule'' then Some \<lparr>controllers = Some [''OrgController'']\<rparr>
                else None),
        controller_store := (\<lambda>c. if c = ''OrgController'' then Some ''orgs'' else None),
        route_store :=
          (\<lambda>c m. if c = ''OrgController'' \<and> m = ''getUser''
                  then Some \<lparr>rt_path = '':org/users/:id'', rt_method = ''GET''\<rparr> else None),
        own_property_names :=
          (\<lambda>c. if c = ''OrgController'' then [(''constructor'', True), (''getUser'', True)]
                else [])\<rparr>"

definition orgs_endpoint :: "string \<times> string \<times> route_metadata" where
  "orgs_endpoint =
     (''OrgController'', ''getUser'', \<lparr>rt_path = '':org/users/:id'', rt_method = ''GET''\<rparr>)"

text \<open>An explorer object that an earlier exploration of something else has left behind.\<close>

definition used_explorer :: explorer where
  "used_explorer =
     \<lparr>paths = [(''/stale'', [])], schemas = [(''Stale'', empty_metadata)]\<rparr>"

text \<open>
  A controller \<^verbatim>\<open>AdminController\<close> decorated with \<^verbatim>\<open>@ApiTags("Admin")\<close> whose method
  \<^verbatim>\<open>list\<close>, routed as \<^verbatim>\<open>GET\<close> on the empty path, is decorated with
  \<^verbatim>\<open>@ApiTags("Users")\<close>.
\<close>

definition admin_env :: reflect where
  "admin_env =
     empty_reflect
       \<lparr>swagger_store :=
          ApiTags [''Admin''] (Constructor ''AdminController'') None False
            (ApiTags [''Users''] (Prototype ''AdminController'') (Some ''list'') True empty_store),
        module_store :=
          (\<lambda>m. if m = ''AdminModule'' then Some \<lparr>controllers = Some [''AdminController'']\<rparr>
                else None),
        controller_store := (\<lambda>c. if c = ''AdminController'' then Some ''admin'' else None),
        route_store :=
          (\<lambda>c m. if c = ''AdminController'' \<and> m = ''list''
                  then Some \<lparr>rt_path = [], rt_method = ''GET''\<rparr> else None),
        own_property_names :=
          (\<lambda>c. if c = ''AdminController'' then [(''constructor'', True), (''list'', True)]
                else [])\<rparr>"

text \<open>The same controller with \<^verbatim>\<open>@ApiOperation({ tags: ["Override"] })\<close> on the method.\<close>

definition override_metadata :: operation_metadata where
  "override_metadata = empty_operation_metadata\<lparr>om_tags := Some [''Override'']\<rparr>"

definition override_env :: reflect where
  "override_env =
     admin_env
       \<lparr>swagger_store :=
          ApiOperation override_metadata (Prototype ''AdminController'') ''list''
            (swagger_store admin_env)\<rparr>"

text \<open>The documents of the service test: a complete one, and the same without a version.\<close>

definition test_document :: document where
  "test_document =
     \<lparr>doc_openapi = Some ''3.0.0'',
      doc_info = Some \<lparr>info_title = Some ''Test API'', info_version = Some ''1.0.0''\<rparr>,
      doc_paths = Some [], doc_components = None\<rparr>"

definition versionless_document :: document where
  "versionless_document =
     test_document\<lparr>doc_info := Some \<lparr>info_title = Some ''Test API'', info_version = None\<rparr>\<rparr>"

text \<open>
  A model that refers to itself:
  \<^verbatim>\<open>@ApiModel() class Node { @ApiProperty({ type: "array", items: { $ref:
  "#/components/schemas/Node" } }) children: Node[] }\<close>. The property decorator runs
  before the class decorator.
\<close>

definition node_ref :: schema_prop where
  "node_ref = SchemaProp (Some ''#/components/schemas/Node'') None None None None"

definition node_children :: schema_prop where
  "node_children = SchemaProp None (Some ''array'') None None (Some node_ref)"

definition node_env :: reflect where
  "node_env =
     ApiModel empty_metadata ''Node''
       (ApiProperty node_children ''Node'' ''children'' TArray empty_reflect)"

text \<open>A model without any property: \<^verbatim>\<open>@ApiModel() class Empty {}\<close>.\<close>

definition empty_model_env :: reflect where
  "empty_model_env = ApiModel empty_metadata ''Empty'' empty_reflect"

text \<open>
  A model \<^verbatim>\<open>Team\<close> with an array property \<^verbatim>\<open>members\<close> of \<^verbatim>\<open>Member\<close> items, a
  model \<^verbatim>\<open>Member\<close> with a string property \<^verbatim>\<open>name\<close>, and a class \<^verbatim>\<open>Plain\<close> that is
  registered only because the property \<^verbatim>\<open>Member.owner\<close> has it as its type.
\<close>

definition member_ref :: schema_prop where
  "member_ref = SchemaProp (Some ''#/components/schemas/Member'') None None None None"

definition team_env :: reflect where
  "team_env =
     ApiModel empty_metadata ''Member''
       (ApiProperty empty_schema ''Member'' ''owner'' (TClass ''Plain'')
          (ApiProperty empty_schema ''Member'' ''name'' TString
             (ApiModel empty_metadata ''Team''
                (ApiProperty (SchemaProp None (Some ''array'') None None (Some member_ref))
                   ''Team'' ''members'' TArray empty_reflect))))"

definition team_rank :: "string \<Rightarrow> nat" where
  "team_rank name = (if name = ''Team'' then 1 else 0)"

section \<open>The reference graph of the registry\<close>

definition registry_entries :: "reflect \<Rightarrow> (string \<times> target) list" where
  "registry_entries env = (case schema_registry env of None \<Rightarrow> [] | Some reg \<Rightarrow> reg)"

definition declared_properties :: "reflect \<Rightarrow> target \<Rightarrow> schema_prop obj" where
  "declared_properties env tgt =
     (case md_properties (getMetadataOrEmpty (swagger_store env) tgt None) of
        None \<Rightarrow> []
      | Some props \<Rightarrow> props)"

definition has_properties :: "reflect \<Rightarrow> target \<Rightarrow> bool" where
  "has_properties env tgt =
     (md_properties (getMetadataOrEmpty (swagger_store env) tgt None) \<noteq> None)"

text \<open>The registered model that an items schema refers to, if it refers to one.\<close>

definition ref_target :: "reflect \<Rightarrow> schema_prop \<Rightarrow> string option" where
  "ref_target env it =
     (case sp_ref it of
        None \<Rightarrow> None
      | Some r \<Rightarrow>
          if r = [] then None
          else (case map_of (registry_entries env) (ref_name r) of
                  None \<Rightarrow> None
                | Some _ \<Rightarrow> Some (ref_name r)))"

definition item_target :: "reflect \<Rightarrow> string \<times> schema_prop \<Rightarrow> string option" where
  "item_target env entry =
     (case sp_items (snd entry) of None \<Rightarrow> None | Some it \<Rightarrow> ref_target env it)"

definition item_references :: "reflect \<Rightarrow> schema_prop obj \<Rightarrow> string list" where
  "item_references env props = List.map_filter (item_target env) props"

text \<open>Every registered model that the items of some registered model's property refer to.\<close>

definition referenced :: "reflect \<Rightarrow> string list" where
  "referenced env =
     concat (map (\<lambda>entry. item_references env (declared_properties env (snd entry)))
               (registry_entries env))"

definition with_properties :: "reflect \<Rightarrow> string list" where
  "with_properties env =
     map fst (filter (\<lambda>entry. has_properties env (snd entry)) (registry_entries env))"

text \<open>
  The item references of the registry are well founded, with chains of at most \<open>n\<close>
  references: a rank bounded by \<open>n\<close> decreases along every reference.
\<close>

definition well_ranked :: "reflect \<Rightarrow> (string \<Rightarrow> nat) \<Rightarrow> nat \<Rightarrow> bool" where
  "well_ranked env rk n =
     list_all (\<lambda>entry. rk (fst entry) \<le> n
                 \<and> list_all (\<lambda>r. rk r < rk (fst entry))
                     (item_references env (declared_properties env (snd entry))))
       (registry_entries env)"

text \<open>
  A schema map \<open>sch'\<close> extends \<open>sch\<close> by the names \<open>X\<close>: it has the keys of \<open>sch\<close> and the
  names \<open>X\<close>, and beyond these only models that some registered model refers to.
\<close>

definition extends_by ::
  "reflect \<Rightarrow> swagger_metadata obj \<Rightarrow> string set \<Rightarrow> swagger_metadata obj \<Rightarrow> bool" where
  "extends_by env sch X sch' =
     (set (obj_keys sch) \<union> X \<subseteq> set (obj_keys sch')
      \<and> set (obj_keys sch') \<subseteq> set (obj_keys sch) \<union> X \<union> set (referenced env))"

text \<open>
  The \<^verbatim>\<open>AdminController\<close> whose method carries
  \<^verbatim>\<open>@ApiOperation({ responses: { "404": { description: "Not found" } } })\<close> and no
  response annotation.
\<close>

definition not_found :: "response obj" where
  "not_found = [(''404'', \<lparr>r_description = Some ''Not found'', r_content = None\<rparr>)]"

definition operation_responses_env :: reflect where
  "operation_responses_env =
     admin_env
       \<lparr>swagger_store :=
          ApiOperation (empty_operation_metadata\<lparr>om_responses := Some not_found\<rparr>)
            (Prototype ''AdminController'') ''list'' (swagger_store admin_env)\<rparr>"

text \<open>
  The \<^verbatim>\<open>AdminController\<close> whose method metadata has the responses that
  \<^verbatim>\<open>@ApiResponse(404, { description: "Not found" })\<close> of the operation decorators leaves.
\<close>

definition declared_responses_env :: reflect where
  "declared_responses_env =
     admin_env
       \<lparr>swagger_store :=
          defineMetadata
            ((getMetadataOrEmpty (swagger_store admin_env) (Prototype ''AdminController'')
                (Some ''list''))\<lparr>md_responses := Some not_found\<rparr>)
            (Prototype ''AdminController'') (Some ''list'') (swagger_store admin_env)\<rparr>"

definition admin_endpoint :: "string \<times> string \<times> route_metadata" where
  "admin_endpoint = (''AdminController'', ''list'', \<lparr>rt_path = [], rt_method = ''GET''\<rparr>)"

section \<open>The endpoints of an exploration\<close>

text \<open>
  An endpoint is a controller, one of its methods and the route metadata of that method.
  The lists below are the endpoints in the order in which \<^verbatim>\<open>explore\<close> reaches them:
  module by module, controller by controller, method by method, without the methods that
  have no route metadata.
\<close>

type_synonym endpoint = "string \<times> string \<times> route_metadata"

definition controller_basePath :: "reflect \<Rightarrow> string \<Rightarrow> string" where
  "controller_basePath env controller =
     (case controller_store env controller of None \<Rightarrow> [] | Some b \<Rightarrow> b)"

definition controller_endpoints :: "reflect \<Rightarrow> string \<Rightarrow> endpoint list" where
  "controller_endpoints env controller =
     List.map_filter
       (\<lambda>meth. map_option (\<lambda>rt. (controller, meth, rt)) (route_store env controller meth))
       (map fst (filter (\<lambda>(p, is_function). p \<noteq> ''constructor'' \<and> is_function)
                   (own_property_names env controller)))"

definition module_controllers :: "reflect \<Rightarrow> string \<Rightarrow> string list" where
  "module_controllers env modul =
     (case module_store env modul of
        None \<Rightarrow> []
      | Some metadata \<Rightarrow> (case controllers metadata of None \<Rightarrow> [] | Some cs \<Rightarrow> cs))"

definition endpoints :: "reflect \<Rightarrow> string list \<Rightarrow> endpoint list" where
  "endpoints env modules =
     concat (map (controller_endpoints env) (concat (map (module_controllers env) modules)))"

text \<open>The slot of an endpoint in the paths map: its full path and its method key.\<close>

definition endpoint_path :: "reflect \<Rightarrow> endpoint \<Rightarrow> string" where
  "endpoint_path env ep =
     (case ep of (controller, meth, rt) \<Rightarrow>
        fullPath (controller_basePath env controller) (rt_path rt))"

definition endpoint_key :: "endpoint \<Rightarrow> string" where
  "endpoint_key ep = (case ep of (controller, meth, rt) \<Rightarrow> toLowerCase (rt_method rt))"



text \<open>
  What exploring one endpoint does to the paths map: the body of the method loop for a
  method that has route metadata.
\<close>

definition emit_endpoint :: "reflect \<Rightarrow> endpoint \<Rightarrow> operation obj obj \<Rightarrow> operation obj obj" where
  "emit_endpoint env ep ps =
     (case ep of (controller, meth, rt) \<Rightarrow>
        explore_method env controller (controller_basePath env controller)
          (getControllerTags env controller) meth ps)"

section \<open>Template variables of a path\<close>




section \<open>Properties of path normalization\<close>

lemma dropWhile_head_not_slash:
  "dropWhile is_slash s = c # cs \<Longrightarrow> \<not> is_slash c"
  by (metis dropWhile_eq_Cons_conv)

lemma strip_trailing_last:
  "strip_trailing_slashes s \<noteq> [] \<Longrightarrow> \<not> is_slash (last (strip_trailing_slashes s))"
proof -
  assume ne: "strip_trailing_slashes s \<noteq> []"
  then obtain c cs where eq: "dropWhile is_slash (rev s) = c # cs"
    by (cases "dropWhile is_slash (rev s)") (auto simp: strip_trailing_slashes_def)
  then have "\<not> is_slash c" by (rule dropWhile_head_not_slash)
  moreover have "last (strip_trailing_slashes s) = c"
    using eq by (simp add: strip_trailing_slashes_def)
  ultimately show ?thesis by simp
qed

lemma strip_trailing_head:
  assumes "s = c # cs" and "\<not> is_slash c"
  shows "\<exists>ds. strip_trailing_slashes s = c # ds"
proof -
  have "\<exists>zs. dropWhile is_slash (rev cs @ [c]) = zs @ [c]"
    using assms(2) by (simp add: dropWhile_append)
  then obtain zs where "dropWhile is_slash (rev s) = zs @ [c]"
    using assms(1) by auto
  then show ?thesis by (simp add: strip_trailing_slashes_def)
qed

lemma normalizePath_one_leading_slash: "one_leading_slash (normalizePath p)"
proof (cases "strip_leading_slashes p")
  case Nil
  then show ?thesis
    by (simp add: normalizePath_def one_leading_slash_def strip_trailing_slashes_def is_slash_def)
next
  case (Cons c cs)
  then have "\<not> is_slash c"
    unfolding strip_leading_slashes_def by (rule dropWhile_head_not_slash)
  with Cons obtain ds where "strip_trailing_slashes (strip_leading_slashes p) = c # ds"
    using strip_trailing_head by blast
  with \<open>\<not> is_slash c\<close> show ?thesis
    by (simp add: normalizePath_def one_leading_slash_def is_slash_def)
qed

lemma normalizePath_no_trailing_slash: "no_trailing_slash (normalizePath p)"
proof (cases "strip_trailing_slashes (strip_leading_slashes p) = []")
  case True
  then show ?thesis by (simp add: normalizePath_def no_trailing_slash_def)
next
  case False
  then show ?thesis
    using strip_trailing_last [of "strip_leading_slashes p"]
    by (simp add: normalizePath_def no_trailing_slash_def)
qed

text \<open>
  C4. For every base path and endpoint path segment drawn from the five sample fragments,
  the normalized concatenation starts with exactly one slash and does not end with a slash
  unless it is the root path.
\<close>

theorem fullPath_normalized:
  "\<forall>b \<in> set sample_paths. \<forall>e \<in> set sample_paths.
     one_leading_slash (fullPath b e) \<and> no_trailing_slash (fullPath b e)"
  by (simp add: fullPath_def normalizePath_one_leading_slash normalizePath_no_trailing_slash)

theorem fullPath_normalized_witness:
  "''/a/'' \<in> set sample_paths \<and> ''a/b'' \<in> set sample_paths
   \<and> fullPath ''/a/'' ''a/b'' = ''/a//a/b''
   \<and> one_leading_slash (fullPath ''/a/'' ''a/b'')
   \<and> no_trailing_slash (fullPath ''/a/'' ''a/b'')"
proof -
  have m: "''/a/'' \<in> set sample_paths" "''a/b'' \<in> set sample_paths"
    by (simp_all add: sample_paths_def)
  have v: "fullPath ''/a/'' ''a/b'' = ''/a//a/b''"
    by (simp add: fullPath_def normalizePath_def methodPath_def strip_leading_slashes_def
        strip_trailing_slashes_def is_slash_def)
  from fullPath_normalized m
  have "one_leading_slash (fullPath ''/a/'' ''a/b'') \<and> no_trailing_slash (fullPath ''/a/'' ''a/b'')"
    by blast
  with m v show ?thesis by simp
qed

section \<open>Operations emitted by the explorer\<close>

lemma obj_get_obj_set_same: "obj_get (obj_set ob k v) k = Some v"
  by (induction ob) (auto simp: obj_get_def)

lemma obj_get_obj_set_other: "k' \<noteq> k \<Longrightarrow> obj_get (obj_set ob k v) k' = obj_get ob k'"
  by (induction ob) (auto simp: obj_get_def)

lemma empty_metadata_fields [simp]:
  "md_tags empty_metadata = None" "md_operation empty_metadata = None"
  "md_parameters empty_metadata = None" "md_requestBody empty_metadata = None"
  "md_responses empty_metadata = None" "md_security empty_metadata = None"
  "md_components empty_metadata = None" "md_type empty_metadata = None"
  "md_title empty_metadata = None" "md_description empty_metadata = None"
  "md_properties empty_metadata = None"
  by (simp_all add: empty_metadata_def)


subsection \<open>The paths map as a sequence of endpoints\<close>

lemma explore_method_without_route:
  "route_store env c m = None \<Longrightarrow> explore_method env c b t m ps = ps"
  by (simp add: explore_method_def)

lemma fold_explore_method:
  "fold (explore_method env c (controller_basePath env c) (getControllerTags env c)) ms ps
   = fold (emit_endpoint env)
       (List.map_filter (\<lambda>meth. map_option (\<lambda>rt. (c, meth, rt)) (route_store env c meth)) ms)
       ps"
  by (induction ms arbitrary: ps)
     (auto simp: map_filter_simps emit_endpoint_def explore_method_without_route
       split: option.splits)

lemma exploreController_endpoints:
  "exploreController env c ps = fold (emit_endpoint env) (controller_endpoints env c) ps"
  by (simp add: exploreController_def controller_endpoints_def Let_def
      fold_explore_method [unfolded controller_basePath_def])

lemma fold_exploreController:
  "fold (exploreController env) cs ps
   = fold (emit_endpoint env) (concat (map (controller_endpoints env) cs)) ps"
  by (induction cs arbitrary: ps) (simp_all add: exploreController_endpoints)

lemma explore_module_endpoints:
  "explore_module env modul ps
   = fold (emit_endpoint env)
       (concat (map (controller_endpoints env) (module_controllers env modul))) ps"
  by (simp add: explore_module_def module_controllers_def fold_exploreController
      split: option.splits)

lemma fold_explore_module:
  "fold (explore_module env) modules ps = fold (emit_endpoint env) (endpoints env modules) ps"
  by (induction modules arbitrary: ps) (simp_all add: endpoints_def explore_module_endpoints)



lemma obj_get_obj_set:
  "obj_get (obj_set ob k v) k' = (if k' = k then Some v else obj_get ob k')"
  by (simp add: obj_get_obj_set_same obj_get_obj_set_other)


lemma obj_set_obj_set_same: "obj_set (obj_set ob k v) k w = obj_set ob k w"
  by (induction ob) auto

lemma explore_method_result:
  assumes "route_store env c m = Some rt"
  shows "explore_method env c b t m ps
         = obj_set ps (fullPath b (rt_path rt))
             (obj_set (case obj_get ps (fullPath b (rt_path rt)) of None \<Rightarrow> [] | Some it \<Rightarrow> it)
                (toLowerCase (rt_method rt))
                (build_operation t
                   (getMetadataOrEmpty (swagger_store env) (Prototype c) (Some m))
                   (fullPath b (rt_path rt))))"
proof (cases "obj_get ps (fullPath b (rt_path rt))")
  case None
  with assms show ?thesis
    by (simp add: explore_method_def Let_def obj_get_obj_set obj_set_obj_set_same)
next
  case (Some it)
  with assms show ?thesis
    by (simp add: explore_method_def Let_def)
qed






subsection \<open>The scan for path variables\<close>

declare path_variables.simps [simp del]







subsection \<open>Path parameters of the emitted operations\<close>

lemma lower_GET: "toLowerCase ''GET'' = ''get''"
  by code_simp

lemma explore_without_registry:
  "schema_registry env = None
     \<Longrightarrow> explore n env modules this
         = Some (\<lparr>ex_paths = fold (emit_endpoint env) (endpoints env modules) [], ex_schemas = []\<rparr>,
                 \<lparr>paths = fold (emit_endpoint env) (endpoints env modules) [], schemas = []\<rparr>)"
  by (simp add: explore_def collectGlobalSchemas_def Let_def fold_explore_module)

lemma orgs_registry: "schema_registry orgs_env = None"
  by (simp add: orgs_env_def empty_reflect_def)

lemma orgs_endpoints: "endpoints orgs_env [''OrgModule''] = [orgs_endpoint]"
  by (simp add: endpoints_def module_controllers_def controller_endpoints_def orgs_env_def
      empty_reflect_def orgs_endpoint_def map_filter_simps)

lemma orgs_slot:
  "endpoint_path orgs_env orgs_endpoint = ''/orgs/:org/users/:id''"
  "endpoint_key orgs_endpoint = ''get''"
  by (simp_all add: endpoint_path_def endpoint_key_def orgs_endpoint_def controller_basePath_def
      orgs_env_def empty_reflect_def lower_GET fullPath_def normalizePath_def methodPath_def
      strip_leading_slashes_def strip_trailing_slashes_def is_slash_def)











lemma admin_fullPath: "fullPath ''admin'' [] = ''/admin''"
  by (simp add: fullPath_def normalizePath_def methodPath_def strip_leading_slashes_def
      strip_trailing_slashes_def is_slash_def)

lemma admin_family:
  "schema_registry admin_env = None"
  "schema_registry override_env = None"
  "schema_registry operation_responses_env = None"
  "schema_registry declared_responses_env = None"
  "endpoints admin_env [''AdminModule''] = [admin_endpoint]"
  "endpoints override_env [''AdminModule''] = [admin_endpoint]"
  "endpoints operation_responses_env [''AdminModule''] = [admin_endpoint]"
  "endpoints declared_responses_env [''AdminModule''] = [admin_endpoint]"
  "endpoint_path admin_env admin_endpoint = ''/admin''"
  "endpoint_path override_env admin_endpoint = ''/admin''"
  "endpoint_path operation_responses_env admin_endpoint = ''/admin''"
  "endpoint_path declared_responses_env admin_endpoint = ''/admin''"
  "endpoint_key admin_endpoint = ''get''"
  by (simp_all add: endpoints_def module_controllers_def controller_endpoints_def
      endpoint_path_def endpoint_key_def controller_basePath_def admin_endpoint_def
      admin_env_def override_env_def operation_responses_env_def declared_responses_env_def
      empty_reflect_def map_filter_simps admin_fullPath lower_GET)









section \<open>Merging of list fields\<close>





section \<open>Security annotations\<close>



section \<open>Independence of successive explorations\<close>

lemma explore_resets: "explore n env modules this = explore n env modules this'"
  by (cases this; cases this') (simp add: explore_def Let_def)

text \<open>
  C2. With the metadata store, the model registry and the module list fixed,
  \<^verbatim>\<open>explore\<close> returns from any explorer object what it returns from a fresh one, since it
  empties the paths and the schemas first; so a second call on the explorer left by a
  first call returns the same paths and schemas as the first.
\<close>

theorem explore_independent_of_earlier_calls:
  "explore n env modules this = explore n env modules new_explorer
   \<and> (explore n env modules this = Some (out, this1)
        \<longrightarrow> explore n env modules this1 = Some (out, this1))"
  using explore_resets [of n env modules this new_explorer]
    explore_resets [of n env modules this1 this]
  by simp

theorem explore_independent_of_earlier_calls_witness:
  "obj_keys (paths used_explorer) = [''/stale'']
   \<and> explore 0 orgs_env [''OrgModule''] used_explorer
     = explore 0 orgs_env [''OrgModule''] new_explorer
   \<and> map_option (\<lambda>(out, this'). (obj_keys (ex_paths out), obj_keys (ex_schemas out)))
       (explore 0 orgs_env [''OrgModule''] used_explorer)
     = Some ([''/orgs/:org/users/:id''], [])
   \<and> map_option (\<lambda>(out, this'). explore 0 orgs_env [''OrgModule''] this' = Some (out, this'))
       (explore 0 orgs_env [''OrgModule''] used_explorer)
     = Some True"
proof -
  have route: "route_store orgs_env ''OrgController'' ''getUser''
                 = Some \<lparr>rt_path = '':org/users/:id'', rt_method = ''GET''\<rparr>"
    by (simp add: orgs_env_def empty_reflect_def)
  have full: "fullPath (controller_basePath orgs_env ''OrgController'') '':org/users/:id''
                = ''/orgs/:org/users/:id''"
    using orgs_slot(1) by (simp add: endpoint_path_def orgs_endpoint_def)
  have "obj_keys (fold (emit_endpoint orgs_env) (endpoints orgs_env [''OrgModule'']) [])
          = [''/orgs/:org/users/:id'']"
    by (simp add: orgs_endpoints orgs_endpoint_def emit_endpoint_def
        explore_method_result [OF route] full obj_keys_def)
  then have keys:
    "map_option (\<lambda>(out, this'). (obj_keys (ex_paths out), obj_keys (ex_schemas out)))
       (explore 0 orgs_env [''OrgModule''] used_explorer)
     = Some ([''/orgs/:org/users/:id''], [])"
    by (simp add: explore_without_registry [OF orgs_registry] obj_keys_def)
  obtain out this1 where
    first: "explore 0 orgs_env [''OrgModule''] used_explorer = Some (out, this1)"
    using explore_without_registry [OF orgs_registry] by blast
  from explore_independent_of_earlier_calls
         [of 0 orgs_env "[''OrgModule'']" used_explorer out this1] first keys
  show ?thesis
    by (simp add: used_explorer_def obj_keys_def)
qed


section \<open>Structural validation of the document\<close>

lemma validate_cases:
  "validate doc = Inl InvalidDocumentStructure \<or> validate doc = Inr ()"
  by (simp add: validate_def)

lemma setDocument_keeps_valid:
  assumes "\<forall>d. svc_document svc = Some d \<longrightarrow> validate d = Inr ()"
  shows "\<forall>d. svc_document (snd (setDocument doc svc)) = Some d \<longrightarrow> validate d = Inr ()"
  using assms validate_cases [of doc]
  by (auto simp: setDocument_def)

lemma after_setDocuments_valid:
  assumes "\<forall>d. svc_document svc = Some d \<longrightarrow> validate d = Inr ()"
  shows "\<forall>d. svc_document (after_setDocuments docs svc) = Some d \<longrightarrow> validate d = Inr ()"
  using assms
proof (induction docs arbitrary: svc)
  case Nil
  then show ?case by (simp add: after_setDocuments_def)
next
  case (Cons doc docs)
  from setDocument_keeps_valid [OF Cons.prems]
  have "\<forall>d. svc_document (after_setDocuments docs (snd (setDocument doc svc))) = Some d
            \<longrightarrow> validate d = Inr ()"
    by (rule Cons.IH)
  then show ?case by (simp add: after_setDocuments_def)
qed

text \<open>
  C3. Setting the document fails with the structural validation error exactly when
  \<^verbatim>\<open>paths\<close>, \<^verbatim>\<open>info.title\<close> or \<^verbatim>\<open>info.version\<close> is absent; a failed call leaves the
  service as it was, so no document that failed the check is ever handed out for serving,
  and a \<^verbatim>\<open>setupSwagger\<close> whose complete document fails the check ends in that error
  before any route is registered; with all three present the call succeeds and the
  document is the one served.
\<close>

theorem setDocument_structural_check:
  "((fst (setDocument doc svc) = Some InvalidDocumentStructure)
      = (doc_paths doc = None
         \<or> (case doc_info doc of None \<Rightarrow> True | Some i \<Rightarrow> info_title i = None)
         \<or> (case doc_info doc of None \<Rightarrow> True | Some i \<Rightarrow> info_version i = None)))
   \<and> ((fst (setDocument doc svc) = None)
      = (\<exists>ps t v i. doc_paths doc = Some ps \<and> doc_info doc = Some i
                   \<and> info_title i = Some t \<and> info_version i = Some v))
   \<and> (fst (setDocument doc svc) \<noteq> None \<longrightarrow> snd (setDocument doc svc) = svc)
   \<and> (fst (setDocument doc svc) = None \<longrightarrow> getDocument (snd (setDocument doc svc)) = Inr doc)
   \<and> (getDocument (after_setDocuments docs new_service) = Inr d \<longrightarrow> validate d = Inr ())
   \<and> (setConfig config svc0 = (None, svc1)
        \<and> generateDocument n env modules svc1 = (None, svc2)
        \<and> fst (setDocument (complete_document config svc2) svc2) \<noteq> None
        \<longrightarrow> setupSwagger n env config modules svc0 = Inl InvalidDocumentStructure)
   \<and> (setConfig config svc0 = (None, svc1)
        \<and> generateDocument n env modules svc1 = (None, svc2)
        \<and> fst (setDocument (complete_document config svc2) svc2) = None
        \<longrightarrow> (\<exists>routes svc3. setupSwagger n env config modules svc0 = Inr (routes, svc3)
              \<and> getDocument svc3 = Inr (complete_document config svc2)))"
proof -
  have fails: "(fst (setDocument doc svc) = Some InvalidDocumentStructure)
     = (doc_paths doc = None
        \<or> (case doc_info doc of None \<Rightarrow> True | Some i \<Rightarrow> info_title i = None)
        \<or> (case doc_info doc of None \<Rightarrow> True | Some i \<Rightarrow> info_version i = None))"
    by (simp add: setDocument_def validate_def)
  have succeeds: "(fst (setDocument doc svc) = None)
     = (\<exists>ps t v i. doc_paths doc = Some ps \<and> doc_info doc = Some i
                  \<and> info_title i = Some t \<and> info_version i = Some v)"
    by (auto simp: setDocument_def validate_def split: option.splits)
  have unchanged: "fst (setDocument doc svc) \<noteq> None \<longrightarrow> snd (setDocument doc svc) = svc"
    by (auto simp: setDocument_def split: sum.splits)
  have stored: "fst (setDocument doc svc) = None \<longrightarrow> getDocument (snd (setDocument doc svc)) = Inr doc"
    by (auto simp: setDocument_def getDocument_def split: sum.splits)
  have served: "getDocument (after_setDocuments docs new_service) = Inr d \<longrightarrow> validate d = Inr ()"
  proof
    assume got: "getDocument (after_setDocuments docs new_service) = Inr d"
    have "\<forall>d. svc_document new_service = Some d \<longrightarrow> validate d = Inr ()"
      by (simp add: new_service_def)
    then have "\<forall>d. svc_document (after_setDocuments docs new_service) = Some d
                    \<longrightarrow> validate d = Inr ()"
      by (rule after_setDocuments_valid)
    with got show "validate d = Inr ()"
      by (auto simp: getDocument_def split: option.splits)
  qed
  have noroutes: "setConfig config svc0 = (None, svc1)
        \<and> generateDocument n env modules svc1 = (None, svc2)
        \<and> fst (setDocument (complete_document config svc2) svc2) \<noteq> None
        \<longrightarrow> setupSwagger n env config modules svc0 = Inl InvalidDocumentStructure"
    using validate_cases [of "complete_document config svc2"]
    by (auto simp: setupSwagger_def setDocument_def split: sum.splits)
  have routes: "setConfig config svc0 = (None, svc1)
        \<and> generateDocument n env modules svc1 = (None, svc2)
        \<and> fst (setDocument (complete_document config svc2) svc2) = None
        \<longrightarrow> (\<exists>routes svc3. setupSwagger n env config modules svc0 = Inr (routes, svc3)
              \<and> getDocument svc3 = Inr (complete_document config svc2))"
    by (auto simp: setupSwagger_def setDocument_def getDocument_def Let_def split: sum.splits)
  from fails succeeds unchanged stored served noroutes routes show ?thesis by blast
qed

theorem setDocument_structural_check_witness:
  "fst (setDocument versionless_document new_service) = Some InvalidDocumentStructure
   \<and> snd (setDocument versionless_document new_service) = new_service
   \<and> fst (setDocument test_document new_service) = None
   \<and> getDocument (snd (setDocument test_document new_service)) = Inr test_document
   \<and> getDocument (after_setDocuments [test_document, versionless_document] new_service)
     = Inr test_document
   \<and> validate test_document = Inr ()
   \<and> setupSwagger 0 admin_env \<lparr>cfg_path = Some ''docs'', cfg_document = versionless_document\<rparr>
       [''AdminModule''] new_service
     = Inl InvalidDocumentStructure
   \<and> map_sum id fst
       (setupSwagger 0 admin_env \<lparr>cfg_path = Some ''docs'', cfg_document = test_document\<rparr>
          [''AdminModule''] new_service)
     = Inr [''docs/swagger.json'', ''docs'']"
proof -
  let ?bad = "\<lparr>cfg_path = Some ''docs'', cfg_document = versionless_document\<rparr>"
  let ?good = "\<lparr>cfg_path = Some ''docs'', cfg_document = test_document\<rparr>"
  let ?P = "fold (emit_endpoint admin_env) (endpoints admin_env [''AdminModule'']) []"
  let ?s1 = "\<lambda>c. new_service\<lparr>svc_config := Some c\<rparr>"
  let ?s2 = "\<lambda>c. new_service\<lparr>svc_config := Some c, svc_paths := ?P, svc_schemas := []\<rparr>"
  have bad: "fst (setDocument versionless_document new_service) = Some InvalidDocumentStructure"
    by (simp add: setDocument_def validate_def versionless_document_def test_document_def)
  have good: "fst (setDocument test_document new_service) = None"
    by (simp add: setDocument_def validate_def test_document_def)
  have run: "getDocument (after_setDocuments [test_document, versionless_document] new_service)
               = Inr test_document"
    by (simp add: after_setDocuments_def setDocument_def validate_def getDocument_def
        versionless_document_def test_document_def)
  have config: "setConfig ?bad new_service = (None, ?s1 ?bad)"
    "setConfig ?good new_service = (None, ?s1 ?good)"
    by (simp_all add: setConfig_def)
  have generate: "generateDocument 0 admin_env [''AdminModule''] (?s1 c) = (None, ?s2 c)" for c
    by (simp add: generateDocument_def explore_without_registry [OF admin_family(1)])
  have bad_complete: "fst (setDocument (complete_document ?bad (?s2 ?bad)) (?s2 ?bad)) \<noteq> None"
    by (simp add: setDocument_def validate_def complete_document_def versionless_document_def
        test_document_def)
  have good_complete: "fst (setDocument (complete_document ?good (?s2 ?good)) (?s2 ?good)) = None"
    by (simp add: setDocument_def validate_def complete_document_def test_document_def)
  have good_routes:
    "map_sum id fst (setupSwagger 0 admin_env ?good [''AdminModule''] new_service)
     = Inr [''docs/swagger.json'', ''docs'']"
    using good_complete
    by (auto simp: setupSwagger_def config generate setDocument_def Let_def split: sum.splits)
  from setDocument_structural_check
         [of versionless_document new_service "[test_document, versionless_document]"
             test_document ?bad new_service "?s1 ?bad" 0 admin_env "[''AdminModule'']" "?s2 ?bad"]
       setDocument_structural_check [of test_document new_service]
       setDocument_structural_check
         [of test_document new_service "[]" test_document ?good new_service "?s1 ?good" 0
             admin_env "[''AdminModule'']" "?s2 ?good"]
       bad good run config generate bad_complete good_complete good_routes
  show ?thesis by simp
qed


section \<open>Resolution of model references\<close>

declare resolveReference.simps [simp del]

lemma node_ref_name: "ref_name ''#/components/schemas/Node'' = ''Node''"
  by (simp add: ref_name_def is_slash_def)

lemma node_registry: "schema_registry node_env = Some [(''Node'', Constructor ''Node'')]"
  by (simp add: node_env_def ApiModel_def ApiProperty_def registry_set_def empty_reflect_def
      Let_def)

lemma node_metadata:
  "getMetadataOrEmpty (swagger_store node_env) (Constructor ''Node'') None
   = empty_metadata\<lparr>md_type := Some ''object'',
                     md_properties := Some [(''children'', node_children)]\<rparr>"
  by (simp add: node_env_def ApiModel_def ApiProperty_def registry_set_def empty_reflect_def
      getMetadataOrEmpty_def getMetadata_def defineMetadata_def empty_store_def Let_def
      spread_schema_def or_else_def node_children_def node_ref_def empty_schema_def)

text \<open>
  While \<^verbatim>\<open>Node\<close> is not in the schema map, resolving the reference to it never comes
  back, whatever depth is available: the nested call finds the schema map as it was.
\<close>

lemma node_resolution_diverges:
  "obj_get sch ''Node'' = None \<Longrightarrow>
     resolveReference n node_env node_ref sch = None
     \<and> transformProperties_loop n node_env [(''children'', node_children)] transformed sch = None"
proof (induction n arbitrary: transformed)
  case 0
  then have "resolveReference 0 node_env node_ref sch = None"
    by (simp add: resolveReference.simps node_ref_def node_ref_name node_registry)
  then show ?case by (simp add: node_children_def)
next
  case (Suc n)
  from Suc.IH [OF Suc.prems, of "[]"]
  have "transformProperties_loop n node_env [(''children'', node_children)] [] sch = None"
    by simp
  with Suc.prems have "resolveReference (Suc n) node_env node_ref sch = None"
    by (simp add: resolveReference.simps [of "Suc n"] node_ref_def node_ref_name node_registry
        node_metadata)
  then show ?case by (simp add: node_children_def)
qed

text \<open>
  C9 fails on the code: with the self-referring model \<^verbatim>\<open>Node\<close> in the registry,
  \<^verbatim>\<open>explore\<close> does not return, however deep the call stack and whatever the modules.
\<close>

theorem explore_diverges_on_self_reference:
  "\<forall>n modules. explore n node_env modules new_explorer = None"
proof (intro allI)
  fix n modules
  have "transformProperties n node_env [(''children'', node_children)] [] = None"
    using node_resolution_diverges [of "[]" n "[]"]
    by (simp add: transformProperties_def obj_get_def)
  then have "collectGlobalSchemas n node_env [] = None"
    by (simp add: collectGlobalSchemas_def node_registry node_metadata)
  then show "explore n node_env modules new_explorer = None"
    by (simp add: explore_def new_explorer_def)
qed

section \<open>Seeding the schema map from the registry\<close>

lemma obj_keys_obj_set_list:
  "obj_keys (obj_set ob k v)
   = (if k \<in> set (obj_keys ob) then obj_keys ob else obj_keys ob @ [k])"
  by (induction ob) (force simp: obj_keys_def)+

lemma obj_keys_obj_set: "set (obj_keys (obj_set ob k v)) = insert k (set (obj_keys ob))"
  by (auto simp: obj_keys_obj_set_list)

lemma obj_get_None_iff: "(obj_get ob k = None) = (k \<notin> set (obj_keys ob))"
  by (simp add: obj_get_def obj_keys_def map_of_eq_None_iff)

lemma ref_target_registered:
  "ref_target env it = Some nm \<Longrightarrow> \<exists>tgt. map_of (registry_entries env) nm = Some tgt"
  by (auto simp: ref_target_def split: option.splits if_splits)

lemma resolve_no_target:
  "ref_target env it = None \<Longrightarrow> resolveReference n env it sch = Some sch"
  by (auto simp: resolveReference.simps ref_target_def registry_entries_def
      split: option.splits if_splits)

lemma resolve_present:
  assumes "ref_target env it = Some nm" and "nm \<in> set (obj_keys sch)"
  shows "resolveReference n env it sch = Some sch"
proof -
  from assms(2) obtain v where "obj_get sch nm = Some v"
    by (cases "obj_get sch nm") (auto simp: obj_get_None_iff)
  with assms(1) show ?thesis
    by (auto simp: resolveReference.simps ref_target_def split: option.splits if_splits)
qed

lemma resolve_absent_0:
  assumes "ref_target env it = Some nm" and "nm \<notin> set (obj_keys sch)"
  shows "resolveReference 0 env it sch = None"
proof -
  from assms(2) have "obj_get sch nm = None"
    by (simp add: obj_get_None_iff)
  with assms(1) show ?thesis
    by (auto simp: resolveReference.simps ref_target_def registry_entries_def
        split: option.splits if_splits)
qed

lemma resolve_absent_Suc:
  assumes "ref_target env it = Some nm" and "nm \<notin> set (obj_keys sch)"
    and "map_of (registry_entries env) nm = Some tgt"
  shows "resolveReference (Suc m) env it sch
         = (case transformProperties_loop m env (declared_properties env tgt) [] sch of
              None \<Rightarrow> None
            | Some (transformed, sch') \<Rightarrow>
                Some (obj_set sch' nm
                        (materialize (getMetadataOrEmpty (swagger_store env) tgt None)
                           transformed)))"
proof -
  from assms(2) have "obj_get sch nm = None"
    by (simp add: obj_get_None_iff)
  with assms(1,3) show ?thesis
    by (auto simp: resolveReference.simps [of "Suc m"] ref_target_def registry_entries_def
        declared_properties_def split: option.splits if_splits)
qed

lemma item_references_Cons:
  "item_references env (entry # rest)
   = (case item_target env entry of
        None \<Rightarrow> item_references env rest
      | Some nm \<Rightarrow> nm # item_references env rest)"
  by (simp add: item_references_def split: option.splits)

lemma item_references_Nil: "item_references env [] = []"
  by (simp add: item_references_def)

lemma well_ranked_entry:
  assumes "well_ranked env rk b" and "(name, tgt) \<in> set (registry_entries env)"
  shows "rk name \<le> b"
    and "\<forall>r \<in> set (item_references env (declared_properties env tgt)). rk r < rk name"
  using assms by (auto simp: well_ranked_def list_all_iff)

lemma referenced_entry:
  assumes "(name, tgt) \<in> set (registry_entries env)"
  shows "set (item_references env (declared_properties env tgt)) \<subseteq> set (referenced env)"
  using assms by (force simp: referenced_def)

subsection \<open>Resolution returns on a well-founded registry\<close>

lemma resolve_total_from_loop:
  assumes wr: "well_ranked env rk b"
    and loop: "\<And>m props tr s. n = Suc m
                 \<Longrightarrow> \<forall>r \<in> set (item_references env props). rk r < m
                 \<Longrightarrow> \<exists>res. transformProperties_loop m env props tr s = Some res"
    and bound: "\<forall>nm. ref_target env it = Some nm \<longrightarrow> rk nm < n"
  shows "\<exists>sch'. resolveReference n env it sch = Some sch'"
proof (cases "ref_target env it")
  case None
  then show ?thesis by (simp add: resolve_no_target)
next
  case (Some nm)
  show ?thesis
  proof (cases "nm \<in> set (obj_keys sch)")
    case True
    with Some show ?thesis by (simp add: resolve_present)
  next
    case False
    from Some bound have "rk nm < n" by simp
    then obtain m where n: "n = Suc m" and m: "rk nm \<le> m"
      by (cases n) auto
    from Some obtain tgt where tgt: "map_of (registry_entries env) nm = Some tgt"
      using ref_target_registered by blast
    then have "(nm, tgt) \<in> set (registry_entries env)" by (rule map_of_SomeD)
    with wr have "\<forall>r \<in> set (item_references env (declared_properties env tgt)). rk r < rk nm"
      by (rule well_ranked_entry)
    with m have "\<forall>r \<in> set (item_references env (declared_properties env tgt)). rk r < m"
      by auto
    with n obtain res where
      "transformProperties_loop m env (declared_properties env tgt) [] sch = Some res"
      using loop by blast
    with Some False tgt n show ?thesis
      by (cases res) (simp add: resolve_absent_Suc)
  qed
qed

lemma loop_total_from_resolve:
  assumes resolve: "\<And>it s. \<forall>nm. ref_target env it = Some nm \<longrightarrow> rk nm < n
                      \<Longrightarrow> \<exists>s'. resolveReference n env it s = Some s'"
  shows "\<forall>r \<in> set (item_references env props). rk r < n
           \<Longrightarrow> \<exists>res. transformProperties_loop n env props tr sch = Some res"
proof (induction props arbitrary: tr sch)
  case Nil
  show ?case by simp
next
  case (Cons entry rest)
  obtain key pr where entry: "entry = (key, pr)" by (cases entry)
  show ?case
  proof (cases "sp_items pr")
    case None
    with Cons.prems entry
    have "\<forall>r \<in> set (item_references env rest). rk r < n"
      by (simp add: item_references_Cons item_target_def)
    then obtain res where
      "transformProperties_loop n env rest (obj_set tr key pr) sch = Some res"
      using Cons.IH by blast
    with None entry show ?thesis by simp
  next
    case (Some it)
    with Cons.prems entry
    have here: "\<forall>nm. ref_target env it = Some nm \<longrightarrow> rk nm < n"
      and later: "\<forall>r \<in> set (item_references env rest). rk r < n"
      by (auto simp: item_references_Cons item_target_def split: option.splits)
    from resolve [OF here] obtain s' where s': "resolveReference n env it sch = Some s'"
      by blast
    from later obtain res where
      "transformProperties_loop n env rest (obj_set tr key (with_items pr it)) s' = Some res"
      using Cons.IH by blast
    with Some entry s' show ?thesis by simp
  qed
qed

lemma loop_total:
  assumes wr: "well_ranked env rk b"
  shows "\<forall>r \<in> set (item_references env props). rk r < n
           \<Longrightarrow> \<exists>res. transformProperties_loop n env props tr sch = Some res"
proof (induction n arbitrary: props tr sch)
  case 0
  have "\<exists>s'. resolveReference 0 env it s = Some s'"
    if "\<forall>nm. ref_target env it = Some nm \<longrightarrow> rk nm < 0" for it s
    using wr _ that by (rule resolve_total_from_loop) simp
  then show ?case using "0.prems" by (rule loop_total_from_resolve)
next
  case (Suc n)
  have "\<exists>s'. resolveReference (Suc n) env it s = Some s'"
    if "\<forall>nm. ref_target env it = Some nm \<longrightarrow> rk nm < Suc n" for it s
    using wr _ that
  proof (rule resolve_total_from_loop)
    fix m props tr s
    assume "Suc n = Suc m" and "\<forall>r \<in> set (item_references env props). rk r < m"
    then show "\<exists>res. transformProperties_loop m env props tr s = Some res"
      using Suc.IH by simp
  qed
  then show ?case using Suc.prems by (rule loop_total_from_resolve)
qed

subsection \<open>The keys of the seeded schema map\<close>

lemma extends_by_refl: "X \<subseteq> set (obj_keys sch) \<Longrightarrow> extends_by env sch X sch"
  by (auto simp: extends_by_def)

lemma extends_by_trans:
  assumes "extends_by env sch X s1" and "extends_by env s1 Y s2"
  shows "extends_by env sch (X \<union> Y) s2"
  using assms unfolding extends_by_def by blast

lemma resolve_extends_from_loop:
  assumes loop: "\<And>m props tr s res. n = Suc m
                   \<Longrightarrow> transformProperties_loop m env props tr s = Some res
                   \<Longrightarrow> extends_by env s (set (item_references env props)) (snd res)"
    and result: "resolveReference n env it sch = Some sch'"
  shows "extends_by env sch (set_option (ref_target env it)) sch'"
proof (cases "ref_target env it")
  case None
  with result show ?thesis
    by (simp add: resolve_no_target extends_by_refl)
next
  case (Some nm)
  show ?thesis
  proof (cases "nm \<in> set (obj_keys sch)")
    case True
    with Some result show ?thesis
      by (simp add: resolve_present extends_by_refl)
  next
    case False
    from Some obtain tgt where tgt: "map_of (registry_entries env) nm = Some tgt"
      using ref_target_registered by blast
    then have entry: "(nm, tgt) \<in> set (registry_entries env)" by (rule map_of_SomeD)
    from Some False result obtain m where n: "n = Suc m"
      by (cases n) (auto simp: resolve_absent_0)
    from Some False tgt result n obtain tr s1 where
      inner: "transformProperties_loop m env (declared_properties env tgt) [] sch = Some (tr, s1)"
      and sch': "sch' = obj_set s1 nm
                   (materialize (getMetadataOrEmpty (swagger_store env) tgt None) tr)"
      by (auto simp: resolve_absent_Suc split: option.splits)
    from loop [OF n inner]
    have "extends_by env sch (set (item_references env (declared_properties env tgt))) s1"
      by simp
    with referenced_entry [OF entry] Some sch' show ?thesis
      unfolding extends_by_def by (auto simp: obj_keys_obj_set)
  qed
qed

lemma loop_extends_from_resolve:
  assumes resolve: "\<And>it s s'. resolveReference n env it s = Some s'
                      \<Longrightarrow> extends_by env s (set_option (ref_target env it)) s'"
  shows "transformProperties_loop n env props tr sch = Some res
           \<Longrightarrow> extends_by env sch (set (item_references env props)) (snd res)"
proof (induction props arbitrary: tr sch)
  case Nil
  then show ?case by (auto simp: item_references_Nil extends_by_refl)
next
  case (Cons entry rest)
  obtain key pr where entry: "entry = (key, pr)" by (cases entry)
  show ?case
  proof (cases "sp_items pr")
    case None
    with Cons.prems entry
    have "transformProperties_loop n env rest (obj_set tr key pr) sch = Some res"
      by simp
    then have "extends_by env sch (set (item_references env rest)) (snd res)"
      by (rule Cons.IH)
    with None entry show ?thesis
      by (simp add: item_references_Cons item_target_def)
  next
    case (Some it)
    with Cons.prems entry obtain s1 where
      s1: "resolveReference n env it sch = Some s1"
      and rest: "transformProperties_loop n env rest (obj_set tr key (with_items pr it)) s1
                   = Some res"
      by (auto split: option.splits)
    from resolve [OF s1] Cons.IH [OF rest]
    have "extends_by env sch (set_option (ref_target env it) \<union> set (item_references env rest))
            (snd res)"
      by (rule extends_by_trans)
    moreover have "set (item_references env (entry # rest))
                     = set_option (ref_target env it) \<union> set (item_references env rest)"
      using Some entry
      by (auto simp: item_references_Cons item_target_def split: option.splits)
    ultimately show ?thesis by simp
  qed
qed

lemma loop_extends:
  "transformProperties_loop n env props tr sch = Some res
     \<Longrightarrow> extends_by env sch (set (item_references env props)) (snd res)"
proof (induction n arbitrary: props tr sch res)
  case 0
  have "extends_by env s (set_option (ref_target env it)) s'"
    if "resolveReference 0 env it s = Some s'" for it s s'
    using _ that by (rule resolve_extends_from_loop) simp
  then show ?case using "0.prems" by (rule loop_extends_from_resolve)
next
  case (Suc n)
  have "extends_by env s (set_option (ref_target env it)) s'"
    if "resolveReference (Suc n) env it s = Some s'" for it s s'
    using _ that
  proof (rule resolve_extends_from_loop)
    fix m props tr s res
    assume "Suc n = Suc m" and "transformProperties_loop m env props tr s = Some res"
    then show "extends_by env s (set (item_references env props)) (snd res)"
      using Suc.IH by simp
  qed
  then show ?case using Suc.prems by (rule loop_extends_from_resolve)
qed

text \<open>The loop over the registry entries: it returns, and these are the keys it leaves.\<close>

lemma collect_entries_total:
  assumes wr: "well_ranked env rk n"
  shows "set entries \<subseteq> set (registry_entries env)
           \<Longrightarrow> \<exists>sch'. collect_entries n env entries sch = Some sch'"
proof (induction entries arbitrary: sch)
  case Nil
  show ?case by simp
next
  case (Cons entry rest)
  obtain name tgt where entry: "entry = (name, tgt)" by (cases entry)
  with Cons.prems have reg: "(name, tgt) \<in> set (registry_entries env)"
    and rest: "set rest \<subseteq> set (registry_entries env)"
    by auto
  show ?case
  proof (cases "md_properties (getMetadataOrEmpty (swagger_store env) tgt None)")
    case None
    with entry Cons.IH [OF rest] show ?thesis by simp
  next
    case (Some props)
    then have props: "declared_properties env tgt = props"
      by (simp add: declared_properties_def)
    from well_ranked_entry [OF wr reg] props
    have "\<forall>r \<in> set (item_references env props). rk r < n"
      by fastforce
    with wr obtain res where "transformProperties_loop n env props [] sch = Some res"
      using loop_total by blast
    with Some entry Cons.IH [OF rest] show ?thesis
      by (cases res) (simp add: transformProperties_def)
  qed
qed

lemma collect_entries_keys:
  "collect_entries n env entries sch = Some sch'
     \<Longrightarrow> set entries \<subseteq> set (registry_entries env)
     \<Longrightarrow> extends_by env sch
           (fst ` {e \<in> set entries. has_properties env (snd e)}
            \<union> (\<Union>e \<in> set entries. set (item_references env (declared_properties env (snd e)))))
           sch'"
proof (induction entries arbitrary: sch)
  case Nil
  then show ?case by (simp add: extends_by_refl)
next
  case (Cons entry rest)
  obtain name tgt where entry: "entry = (name, tgt)" by (cases entry)
  from Cons.prems(2) have rest: "set rest \<subseteq> set (registry_entries env)" by simp
  let ?W = "fst ` {e \<in> set rest. has_properties env (snd e)}
            \<union> (\<Union>e \<in> set rest. set (item_references env (declared_properties env (snd e))))"
  show ?case
  proof (cases "md_properties (getMetadataOrEmpty (swagger_store env) tgt None)")
    case None
    with Cons.prems(1) entry have "collect_entries n env rest sch = Some sch'"
      by simp
    from Cons.IH [OF this rest] have "extends_by env sch ?W sch'" .
    moreover from None have "\<not> has_properties env tgt" "declared_properties env tgt = []"
      by (simp_all add: has_properties_def declared_properties_def)
    with entry have "fst ` {e \<in> set (entry # rest). has_properties env (snd e)}
            \<union> (\<Union>e \<in> set (entry # rest).
                  set (item_references env (declared_properties env (snd e))))
            = ?W"
      by (auto simp: item_references_Nil)
    ultimately show ?thesis by simp
  next
    case (Some props)
    then have props: "declared_properties env tgt = props" and has: "has_properties env tgt"
      by (simp_all add: declared_properties_def has_properties_def)
    from Cons.prems(1) entry Some obtain tr s1 where
      inner: "transformProperties_loop n env props [] sch = Some (tr, s1)"
      and later: "collect_entries n env rest
                    (obj_set s1 name
                       (materialize (getMetadataOrEmpty (swagger_store env) tgt None) tr))
                  = Some sch'"
      by (auto simp: transformProperties_def split: option.splits)
    from loop_extends [OF inner]
    have "extends_by env sch (set (item_references env props)) s1" by simp
    then have "extends_by env sch (insert name (set (item_references env props)))
                 (obj_set s1 name
                    (materialize (getMetadataOrEmpty (swagger_store env) tgt None) tr))"
      unfolding extends_by_def by (auto simp: obj_keys_obj_set)
    from extends_by_trans [OF this Cons.IH [OF later rest]]
    have "extends_by env sch (insert name (set (item_references env props)) \<union> ?W) sch'" .
    moreover have "fst ` {e \<in> set (entry # rest). has_properties env (snd e)}
            \<union> (\<Union>e \<in> set (entry # rest).
                  set (item_references env (declared_properties env (snd e))))
            = insert name (set (item_references env props)) \<union> ?W"
      using entry props has by force
    ultimately show ?thesis by simp
  qed
qed

lemma collectGlobalSchemas_keys:
  assumes "collectGlobalSchemas n env [] = Some sch"
  shows "set (obj_keys sch) = set (with_properties env) \<union> set (referenced env)"
proof -
  from assms have "collect_entries n env (registry_entries env) [] = Some sch"
    by (simp add: collectGlobalSchemas_def registry_entries_def split: option.splits)
  from collect_entries_keys [OF this]
  have "extends_by env []
          (fst ` {e \<in> set (registry_entries env). has_properties env (snd e)}
           \<union> (\<Union>e \<in> set (registry_entries env).
                 set (item_references env (declared_properties env (snd e)))))
          sch"
    by simp
  moreover have "fst ` {e \<in> set (registry_entries env). has_properties env (snd e)}
                   = set (with_properties env)"
    by (auto simp: with_properties_def)
  moreover have "(\<Union>e \<in> set (registry_entries env).
                     set (item_references env (declared_properties env (snd e))))
                   = set (referenced env)"
    by (auto simp: referenced_def)
  ultimately show ?thesis
    unfolding extends_by_def by (auto simp: obj_keys_def)
qed

lemma collectGlobalSchemas_total:
  assumes "well_ranked env rk n"
  shows "\<exists>sch'. collectGlobalSchemas n env sch = Some sch'"
  using collect_entries_total [OF assms, of "registry_entries env" sch]
  by (auto simp: collectGlobalSchemas_def registry_entries_def split: option.splits)


lemma empty_model_registry:
  "schema_registry empty_model_env = Some [(''Empty'', Constructor ''Empty'')]"
  by (simp add: empty_model_env_def ApiModel_def registry_set_def empty_reflect_def Let_def)

lemma empty_model_metadata:
  "getMetadata (swagger_store empty_model_env) (Constructor ''Empty'') None
   = Some (empty_metadata\<lparr>md_type := Some ''object'', md_properties := Some []\<rparr>)"
  by (simp add: empty_model_env_def ApiModel_def registry_set_def empty_reflect_def
      getMetadataOrEmpty_def getMetadata_def defineMetadata_def empty_store_def Let_def)

text \<open>
  C7, as stated, fails: a model annotated with \<^verbatim>\<open>ApiModel\<close> alone declares no property,
  yet its metadata has the empty \<^verbatim>\<open>properties\<close> object and the model is seeded.
\<close>

theorem zero_property_model_seeded:
  "map_option md_properties
     (getMetadata (swagger_store empty_model_env) (Constructor ''Empty'') None)
   = Some (Some [])
   \<and> map_option (ex_schemas \<circ> fst) (explore 0 empty_model_env [] new_explorer)
     = Some [(''Empty'', empty_metadata\<lparr>md_type := Some ''object'', md_properties := Some []\<rparr>)]"
  by (simp add: empty_model_metadata explore_def collectGlobalSchemas_def empty_model_registry
      getMetadataOrEmpty_def transformProperties_def materialize_def new_explorer_def Let_def)

text \<open>
  C7, amended. Where the item references among the registered models are well founded,
  \<^verbatim>\<open>explore\<close> returns, and a registered model is in the output schema map if and only if
  its metadata has a \<^verbatim>\<open>properties\<close> object, be it empty, or the model is the target of
  the \<^verbatim>\<open>items.$ref\<close> of a property of some registered model; every other registered
  model is skipped without an error.
\<close>

theorem seeded_schema_keys:
  assumes "well_ranked env rk n"
  shows "\<exists>out this'. explore n env modules this = Some (out, this')
           \<and> set (obj_keys (ex_schemas out))
             = set (with_properties env) \<union> set (referenced env)"
proof -
  from collectGlobalSchemas_total [OF assms, of "[]"]
  obtain sch where sch: "collectGlobalSchemas n env [] = Some sch" by blast
  then have "set (obj_keys sch) = set (with_properties env) \<union> set (referenced env)"
    by (rule collectGlobalSchemas_keys)
  with sch show ?thesis
    by (simp add: explore_def Let_def)
qed

lemma member_ref_name: "ref_name ''#/components/schemas/Member'' = ''Member''"
  by (simp add: ref_name_def is_slash_def)

lemma team_registry:
  "schema_registry team_env
   = Some [(''Team'', Constructor ''Team''), (''Plain'', Constructor ''Plain''),
           (''Member'', Constructor ''Member'')]"
  by (simp add: team_env_def ApiModel_def ApiProperty_def getSchemaForType_def registry_set_def
      empty_reflect_def Let_def)

lemma team_properties:
  "md_properties (getMetadataOrEmpty (swagger_store team_env) (Constructor ''Team'') None)
   = Some [(''members'', SchemaProp None (Some ''array'') None None (Some member_ref))]"
  "md_properties (getMetadataOrEmpty (swagger_store team_env) (Constructor ''Plain'') None)
   = None"
  "md_properties (getMetadataOrEmpty (swagger_store team_env) (Constructor ''Member'') None)
   = Some [(''name'', SchemaProp None (Some ''string'') None None None),
           (''owner'', SchemaProp (Some ''#/components/schemas/Plain'') None None None None)]"
  by (simp_all add: team_env_def ApiModel_def ApiProperty_def getSchemaForType_def
      registry_set_def empty_reflect_def getMetadataOrEmpty_def getMetadata_def
      defineMetadata_def empty_store_def Let_def spread_schema_def or_else_def
      member_ref_def empty_schema_def)

theorem seeded_schema_keys_witness:
  "well_ranked team_env team_rank 1
   \<and> map fst (registry_entries team_env) = [''Team'', ''Plain'', ''Member'']
   \<and> with_properties team_env = [''Team'', ''Member'']
   \<and> referenced team_env = [''Member'']
   \<and> (\<exists>out this'. explore 1 team_env [] new_explorer = Some (out, this')
         \<and> set (obj_keys (ex_schemas out)) = {''Team'', ''Member''})"
proof -
  have entries: "registry_entries team_env
                   = [(''Team'', Constructor ''Team''), (''Plain'', Constructor ''Plain''),
                      (''Member'', Constructor ''Member'')]"
    by (simp add: registry_entries_def team_registry)
  have refs: "item_references team_env (declared_properties team_env (Constructor ''Team''))
                = [''Member'']"
    "item_references team_env (declared_properties team_env (Constructor ''Plain'')) = []"
    "item_references team_env (declared_properties team_env (Constructor ''Member'')) = []"
    by (simp_all add: item_references_def item_target_def ref_target_def declared_properties_def
        team_properties entries member_ref_def member_ref_name map_filter_simps)
  have ranked: "well_ranked team_env team_rank 1"
    by (simp add: well_ranked_def entries refs team_rank_def)
  have withp: "with_properties team_env = [''Team'', ''Member'']"
    by (simp add: with_properties_def has_properties_def entries team_properties)
  have refd: "referenced team_env = [''Member'']"
    by (simp add: referenced_def entries refs)
  have keys: "set (with_properties team_env) \<union> set (referenced team_env) = {''Team'', ''Member''}"
    by (auto simp: withp refd)
  from seeded_schema_keys [OF ranked, of "[]" new_explorer]
  have "\<exists>out this'. explore 1 team_env [] new_explorer = Some (out, this')
         \<and> set (obj_keys (ex_schemas out)) = {''Team'', ''Member''}"
    by (simp only: keys)
  with ranked entries withp refd show ?thesis by simp
qed

end
